theory Spec2Isabelle
  imports Complex_Main "HOL-Library.Word"
begin

section \<open>Data model of the KiTS19 slice extractor\<close>

text \<open>
  The notebook function \<open>save_kits19_frames\<close> loads a segmentation volume and the imaging
  volume next to it, checks that their shapes agree, optionally binarizes the mask and clips
  the image to a window, and then writes one \<open>.jpg\<close> and one \<open>.png\<close> per index of the
  first axis.

  A NumPy array is a shape together with a flat row-major buffer, and is modelled as such.
  Voxel values are the finite \<open>float64\<close> values, which are rationals. Comparisons and
  assignments are exact; every arithmetic operation of the source is the exact rational
  operation followed by the rounding \<open>rnd\<close> of the float format, which is a parameter of
  the model (overflow to infinity of a rounded result is not modelled). A division by zero
  does not raise in NumPy: it yields \<open>nan\<close> or an infinity, which is why the quotient has
  the type \<open>f64\<close> below.
\<close>

record 'a ndarray =
  shape :: "nat list"
  data :: "'a list"

datatype f64 = Finite rat | PosInf | NegInf | NaN

datatype raster = U8 "8 word ndarray" | F64 "rat ndarray"

type_synonym path = "string list"

datatype assertion =
    MaskPathMissing | ImagePathMissing | ShapeMismatch
  | EmptySentence | SentenceTooLong

datatype py_error =
    AssertionError assertion
  | FileExistsError
  | FileNotFoundError
  | NotADirectoryError
  | ImageFileError
  | ValueError
  | TypeError

text \<open>
  The file system: the directories, the NIfTI volumes that \<open>nib.load(p).get_fdata()\<close>
  returns, and the raster files, each holding the array that was handed to
  \<open>cv2.imwrite\<close> (the encoders themselves are outside the repository).
\<close>

record fs =
  dirs :: "path set"
  niftis :: "path \<rightharpoonup> rat ndarray"
  rasters :: "path \<rightharpoonup> raster"

section \<open>Paths and file-system operations\<close>

definition path_exists :: "fs \<Rightarrow> path \<Rightarrow> bool" where
  "path_exists s p = (p \<in> dirs s \<or> niftis s p \<noteq> None \<or> rasters s p \<noteq> None)"

text \<open>\<open>Path.mkdir(exist_ok=True)\<close>, with \<open>parents\<close> left at \<open>False\<close>.\<close>

definition mkdir_exist_ok :: "path \<Rightarrow> fs \<Rightarrow> py_error + fs" where
  "mkdir_exist_ok p s =
     (if p \<in> dirs s then Inr s
      else if path_exists s p then Inl FileExistsError
      else if butlast p \<in> dirs s then Inr (s\<lparr>dirs := insert p (dirs s)\<rparr>)
      else if path_exists s (butlast p) then Inl NotADirectoryError
      else Inl FileNotFoundError)"

text \<open>\<open>Path.with_name\<close> raises \<open>ValueError\<close> on a path with an empty name.\<close>

definition with_name :: "path \<Rightarrow> string \<Rightarrow> py_error + path" where
  "with_name p n = (if p = [] then Inl ValueError else Inr (butlast p @ [n]))"

text \<open>\<open>p.parent.name\<close>: the last component of the parent, empty when there is none.\<close>

definition parent_name :: "path \<Rightarrow> string" where
  "parent_name p = (case butlast p of [] \<Rightarrow> [] | q # qs \<Rightarrow> last (q # qs))"

text \<open>\<open>p / c\<close>: an empty segment is dropped by \<open>pathlib\<close>.\<close>

definition pjoin :: "path \<Rightarrow> string \<Rightarrow> path" where
  "pjoin p c = (if c = [] then p else p @ [c])"

definition nib_load :: "fs \<Rightarrow> path \<Rightarrow> py_error + rat ndarray" where
  "nib_load s p = (case niftis s p of None \<Rightarrow> Inl ImageFileError | Some v \<Rightarrow> Inr v)"

text \<open>
  \<open>cv2.imwrite\<close> stores the array under the path. The write is taken to succeed (the
  directory has just been created); the source ignores the value that \<open>imwrite\<close>
  returns.
\<close>

definition imwrite :: "path \<Rightarrow> raster \<Rightarrow> fs \<Rightarrow> fs" where
  "imwrite p r s = s\<lparr>rasters := (rasters s)(p \<mapsto> r)\<rparr>"

subsection \<open>The format \<open>{i:04d}\<close>\<close>

definition digit_char :: "nat \<Rightarrow> char" where
  "digit_char d = char_of (48 + d)"

fun dec :: "nat \<Rightarrow> string" where
  "dec n = (if n < 10 then [digit_char n] else dec (n div 10) @ [digit_char (n mod 10)])"

declare dec.simps [simp del]

definition fmt04d :: "nat \<Rightarrow> string" where
  "fmt04d i = replicate (4 - length (dec i)) (CHR ''0'') @ dec i"

definition new_image_path :: "path \<Rightarrow> string \<Rightarrow> nat \<Rightarrow> path" where
  "new_image_path image_directory name i =
     pjoin image_directory (name @ ''_'' @ fmt04d i @ ''.jpg'')"

definition new_mask_path :: "path \<Rightarrow> string \<Rightarrow> nat \<Rightarrow> path" where
  "new_mask_path mask_directory name i =
     pjoin mask_directory (name @ ''_'' @ fmt04d i @ ''.png'')"

section \<open>Array operations\<close>

text \<open>Iterating an array walks its first axis; a 0-d array cannot be iterated.\<close>

definition subarray :: "'a ndarray \<Rightarrow> nat \<Rightarrow> 'a ndarray" where
  "subarray a i =
     \<lparr>shape = tl (shape a),
      data = take (prod_list (tl (shape a))) (drop (i * prod_list (tl (shape a))) (data a))\<rparr>"

definition frames_of :: "'a ndarray \<Rightarrow> py_error + 'a ndarray list" where
  "frames_of a =
     (case shape a of [] \<Rightarrow> Inl TypeError
      | d # rest \<Rightarrow> Inr (map (subarray a) [0..<d]))"

text \<open>\<open>mask_data[mask_data > 0] = 1\<close>\<close>

definition binarize :: "rat ndarray \<Rightarrow> rat ndarray" where
  "binarize a = a\<lparr>data := map (\<lambda>v. if v > 0 then 1 else v) (data a)\<rparr>"

text \<open>
  \<open>image_data[image_data < window_start] = window_start\<close> and then
  \<open>image_data[image_data > window_end] = window_end\<close>
\<close>

definition apply_window :: "rat \<times> rat \<Rightarrow> rat ndarray \<Rightarrow> rat ndarray" where
  "apply_window w a =
     (case w of (window_start, window_end) \<Rightarrow>
        a\<lparr>data := map (\<lambda>x. if (if x < window_start then window_start else x) > window_end
                             then window_end
                             else (if x < window_start then window_start else x)) (data a)\<rparr>)"

text \<open>\<open>.min()\<close> and \<open>.max()\<close> are reductions; on an array of size zero they raise.\<close>

definition amin :: "rat ndarray \<Rightarrow> py_error + rat" where
  "amin a = (case data a of [] \<Rightarrow> Inl ValueError | x # xs \<Rightarrow> Inr (fold min xs x))"

definition amax :: "rat ndarray \<Rightarrow> py_error + rat" where
  "amax a = (case data a of [] \<Rightarrow> Inl ValueError | x # xs \<Rightarrow> Inr (fold max xs x))"

text \<open>Float division by a scalar, the product with 255, and the cast to \<open>uint8\<close>.\<close>

definition fdiv :: "(rat \<Rightarrow> rat) \<Rightarrow> rat \<Rightarrow> rat \<Rightarrow> f64" where
  "fdiv rnd a b =
     (if b = 0 then (if a = 0 then NaN else if a > 0 then PosInf else NegInf)
      else Finite (rnd (a / b)))"

definition fmul255 :: "(rat \<Rightarrow> rat) \<Rightarrow> f64 \<Rightarrow> f64" where
  "fmul255 rnd x = (case x of Finite q \<Rightarrow> Finite (rnd (q * 255)) | _ \<Rightarrow> x)"

definition trunc :: "rat \<Rightarrow> int" where
  "trunc q = (if q < 0 then \<lceil>q\<rceil> else \<lfloor>q\<rfloor>)"

text \<open>
  The cast truncates toward zero. Outside the range of \<open>uint8\<close> the cast of a finite value
  is written as wrap-around; on \<open>nan\<close> and the infinities its result depends on the
  platform and is the parameter \<open>nonfinite\<close>.
\<close>

definition astype_uint8 :: "(f64 \<Rightarrow> 8 word) \<Rightarrow> f64 \<Rightarrow> 8 word" where
  "astype_uint8 nonfinite x = (case x of Finite q \<Rightarrow> word_of_int (trunc q) | _ \<Rightarrow> nonfinite x)"

definition rescale_pixel :: "(rat \<Rightarrow> rat) \<Rightarrow> (f64 \<Rightarrow> 8 word) \<Rightarrow> rat \<Rightarrow> rat \<Rightarrow> rat \<Rightarrow> 8 word" where
  "rescale_pixel rnd nonfinite m M v =
     astype_uint8 nonfinite (fmul255 rnd (fdiv rnd (rnd (v - m)) (rnd (M - m))))"

text \<open>The three lines of the loop body that turn \<open>image_frame\<close> into an 8-bit frame.\<close>

definition rescale_frame ::
  "(rat \<Rightarrow> rat) \<Rightarrow> (f64 \<Rightarrow> 8 word) \<Rightarrow> rat ndarray \<Rightarrow> py_error + 8 word ndarray" where
  "rescale_frame rnd nonfinite image_frame =
     (case amin image_frame of Inl e \<Rightarrow> Inl e
      | Inr m \<Rightarrow>
        (case amax image_frame of Inl e \<Rightarrow> Inl e
         | Inr M \<Rightarrow>
           Inr \<lparr>shape = shape image_frame,
                data = map (rescale_pixel rnd nonfinite m M) (data image_frame)\<rparr>))"

section \<open>The conversion\<close>

text \<open>The two optional preprocessing steps and the two output directories.\<close>

definition prepare_mask :: "bool \<Rightarrow> rat ndarray \<Rightarrow> rat ndarray" where
  "prepare_mask make_binary mask_data = (if make_binary then binarize mask_data else mask_data)"

definition prepare_image :: "(rat \<times> rat) option \<Rightarrow> rat ndarray \<Rightarrow> rat ndarray" where
  "prepare_image window_level image_data =
     (case window_level of None \<Rightarrow> image_data | Some w \<Rightarrow> apply_window w image_data)"

definition image_dir :: "path \<Rightarrow> path \<Rightarrow> path" where
  "image_dir root_dir mask_path = pjoin (pjoin root_dir (parent_name mask_path)) ''imaging_frames''"

definition mask_dir :: "path \<Rightarrow> path \<Rightarrow> path" where
  "mask_dir root_dir mask_path =
     pjoin (pjoin root_dir (parent_name mask_path)) ''segmentation_frames''"

fun frame_loop ::
  "(rat \<Rightarrow> rat) \<Rightarrow> (f64 \<Rightarrow> 8 word) \<Rightarrow> path \<Rightarrow> path \<Rightarrow> string \<Rightarrow> nat \<Rightarrow>
   (rat ndarray \<times> rat ndarray) list \<Rightarrow> fs \<Rightarrow> (py_error + unit) \<times> fs" where
  "frame_loop rnd nonfinite image_directory mask_directory name i [] s = (Inr (), s)"
| "frame_loop rnd nonfinite image_directory mask_directory name i
     ((mask_frame, image_frame) # rest) s =
     (case rescale_frame rnd nonfinite image_frame of
        Inl e \<Rightarrow> (Inl e, s)
      | Inr frame8 \<Rightarrow>
          frame_loop rnd nonfinite image_directory mask_directory name (Suc i) rest
            (imwrite (new_mask_path mask_directory name i) (F64 mask_frame)
               (imwrite (new_image_path image_directory name i) (U8 frame8) s)))"

text \<open>
  The function returns the outcome (\<open>Inr ()\<close> for a normal return, \<open>Inl e\<close> for the
  exception raised) together with the file system as it is at that moment.
\<close>

definition save_kits19_frames ::
  "(rat \<Rightarrow> rat) \<Rightarrow> (f64 \<Rightarrow> 8 word) \<Rightarrow> path \<Rightarrow> path \<Rightarrow> (rat \<times> rat) option \<Rightarrow> bool \<Rightarrow>
   fs \<Rightarrow> (py_error + unit) \<times> fs" where
  "save_kits19_frames rnd nonfinite mask_path root_dir window_level make_binary s0 =
     (case mkdir_exist_ok root_dir s0 of Inl e \<Rightarrow> (Inl e, s0)
      | Inr s1 \<Rightarrow>
     (case with_name mask_path ''imaging.nii.gz'' of Inl e \<Rightarrow> (Inl e, s1)
      | Inr image_path \<Rightarrow>
     if \<not> path_exists s1 mask_path then (Inl (AssertionError MaskPathMissing), s1)
     else if \<not> path_exists s1 image_path then (Inl (AssertionError ImagePathMissing), s1)
     else
     (case nib_load s1 mask_path of Inl e \<Rightarrow> (Inl e, s1)
      | Inr mask_data0 \<Rightarrow>
     (case nib_load s1 image_path of Inl e \<Rightarrow> (Inl e, s1)
      | Inr image_data0 \<Rightarrow>
     if shape mask_data0 \<noteq> shape image_data0
     then (Inl (AssertionError ShapeMismatch), s1)
     else
       let mask_data = prepare_mask make_binary mask_data0;
           image_data = prepare_image window_level image_data0;
           name = parent_name mask_path;
           image_directory = image_dir root_dir mask_path;
           mask_directory = mask_dir root_dir mask_path
       in
     (case mkdir_exist_ok (butlast image_directory) s1 of Inl e \<Rightarrow> (Inl e, s1)
      | Inr s2 \<Rightarrow>
     (case mkdir_exist_ok image_directory s2 of Inl e \<Rightarrow> (Inl e, s2)
      | Inr s3 \<Rightarrow>
     (case mkdir_exist_ok mask_directory s3 of Inl e \<Rightarrow> (Inl e, s3)
      | Inr s4 \<Rightarrow>
     (case frames_of mask_data of Inl e \<Rightarrow> (Inl e, s4)
      | Inr mask_frames \<Rightarrow>
     (case frames_of image_data of Inl e \<Rightarrow> (Inl e, s4)
      | Inr image_frames \<Rightarrow>
         frame_loop rnd nonfinite image_directory mask_directory name 0
           (zip mask_frames image_frames) s4)))))))))"

text \<open>Reading a frame number back from its decimal form; used to tell frame files apart.\<close>

definition undec :: "string \<Rightarrow> nat" where
  "undec cs = foldl (\<lambda>a c. 10 * a + (of_char c - 48)) 0 cs"

section \<open>The translation demo\<close>

text \<open>
  A Python \<open>str\<close> is a sequence of Unicode code points. \<open>py_isspace\<close> lists the code
  points that \<open>str.strip()\<close> and \<open>str.split()\<close> treat as whitespace.
\<close>

type_synonym ustr = "nat list"

definition ustr_of :: "string \<Rightarrow> ustr" where
  "ustr_of cs = map of_char cs"

definition py_isspace :: "nat \<Rightarrow> bool" where
  "py_isspace c =
     ((9 \<le> c \<and> c \<le> 13) \<or> (28 \<le> c \<and> c \<le> 32) \<or> c = 133 \<or> c = 160 \<or> c = 5760 \<or>
      (8192 \<le> c \<and> c \<le> 8202) \<or> c = 8232 \<or> c = 8233 \<or> c = 8239 \<or> c = 8287 \<or> c = 12288)"

definition py_strip :: "ustr \<Rightarrow> ustr" where
  "py_strip s = rev (dropWhile py_isspace (rev (dropWhile py_isspace s)))"

text \<open>\<open>s.replace(old, '')\<close>: occurrences are removed from left to right.\<close>

fun str_remove :: "ustr \<Rightarrow> ustr \<Rightarrow> ustr" where
  "str_remove old [] = []"
| "str_remove old (c # cs) =
     (if old \<noteq> [] \<and> take (length old) (c # cs) = old
      then str_remove old (drop (length old) (c # cs))
      else c # str_remove old cs)"

text \<open>\<open>s.split()\<close>: the maximal runs of characters that are not whitespace.\<close>

fun split_acc :: "ustr \<Rightarrow> ustr \<Rightarrow> ustr list" where
  "split_acc cur [] = (if cur = [] then [] else [cur])"
| "split_acc cur (c # cs) =
     (if py_isspace c then (if cur = [] then split_acc [] cs else cur # split_acc [] cs)
      else split_acc (cur @ [c]) cs)"

definition py_split :: "ustr \<Rightarrow> ustr list" where
  "py_split s = split_acc [] s"

fun join :: "ustr \<Rightarrow> ustr list \<Rightarrow> ustr" where
  "join sep [] = []"
| "join sep [w] = w"
| "join sep (w # v # ws) = w @ sep @ join sep (v # ws)"

text \<open>
  The objects the notebook builds before \<open>translate\<close> is defined: the two tokenizers, the
  inference request and the input width of the network. They belong to libraries outside
  the repository and are parameters; every call made to them is appended to a log.
\<close>

record translator =
  max_tokens :: int
  src_encode :: "ustr \<Rightarrow> int list"
  src_token_to_id :: "ustr \<Rightarrow> int"
  infer :: "int list \<Rightarrow> int list"
  tgt_decode :: "int list \<Rightarrow> ustr"
  lower :: "ustr \<Rightarrow> ustr"

datatype call = Encode ustr | TokenToId ustr | Infer "int list" | GetTensor | Decode "int list"

definition translate ::
  "translator \<Rightarrow> ustr \<Rightarrow> call list \<Rightarrow> (py_error + ustr) \<times> call list" where
  "translate env sentence0 log0 =
     (let sentence = py_strip sentence0 in
      if \<not> length sentence > 0 then (Inl (AssertionError EmptySentence), log0)
      else
        let ids = src_encode env sentence;
            tokens = [src_token_to_id env (ustr_of ''<s>'')] @ ids
                     @ [src_token_to_id env (ustr_of ''</s>'')];
            log1 = log0 @ [Encode sentence, TokenToId (ustr_of ''<s>''),
                           TokenToId (ustr_of ''</s>'')];
            pad_length = max_tokens env - int (length tokens);
            padded = (if pad_length > 0
                      then tokens @ replicate (nat pad_length)
                                      (src_token_to_id env (ustr_of ''<pad>''))
                      else tokens);
            log2 = (if pad_length > 0 then log1 @ [TokenToId (ustr_of ''<pad>'')] else log1)
        in
        if int (length padded) \<noteq> max_tokens env
        then (Inl (AssertionError SentenceTooLong), log2)
        else
          let enc_translated = infer env padded;
              decoded = tgt_decode env enc_translated;
              log3 = log2 @ [Infer padded, GetTensor, Decode enc_translated];
              cleaned = foldl (\<lambda>s old. str_remove old s) decoded
                          [ustr_of ''</s>'', ustr_of ''<s>'', ustr_of ''<pad>''];
              words = py_split (lower env cleaned)
          in (Inr (join (ustr_of '' '') (remdups_adj words)), log3))"

section \<open>A small case used to exercise the theorems\<close>

text \<open>
  A volume pair of shape \<open>(2, 2, 2)\<close> in \<open>data/case_00002\<close>, with labels 0, 1 and 2.
\<close>

definition example_mask_path :: path where
  "example_mask_path = [''data'', ''case_00002'', ''segmentation.nii.gz'']"

definition example_mask :: "rat ndarray" where
  "example_mask = \<lparr>shape = [2, 2, 2], data = [0, 1, 2, 0, 0, 0, 2, 1]\<rparr>"

definition example_image :: "rat ndarray" where
  "example_image = \<lparr>shape = [2, 2, 2], data = [-200, 100, 0, 300, 1, 2, 3, 4]\<rparr>"

definition example_fs :: fs where
  "example_fs =
     \<lparr>dirs = {[], [''data''], [''data'', ''case_00002'']},
      niftis = [example_mask_path \<mapsto> example_mask,
                [''data'', ''case_00002'', ''imaging.nii.gz''] \<mapsto> example_image],
      rasters = Map.empty\<rparr>"

text \<open>The same case with an imaging volume of another shape.\<close>

definition mismatch_fs :: fs where
  "mismatch_fs =
     \<lparr>dirs = {[], [''data''], [''data'', ''case_00002'']},
      niftis = [example_mask_path \<mapsto> example_mask,
                [''data'', ''case_00002'', ''imaging.nii.gz''] \<mapsto>
                  \<lparr>shape = [1, 2, 2], data = [1, 2, 3, 4]\<rparr>],
      rasters = Map.empty\<rparr>"

text \<open>A second case that agrees with the first on slice 0 only.\<close>

definition example_mask2 :: "rat ndarray" where
  "example_mask2 = \<lparr>shape = [2, 2, 2], data = [0, 1, 2, 0, 1, 1, 1, 1]\<rparr>"

definition example_image2 :: "rat ndarray" where
  "example_image2 = \<lparr>shape = [2, 2, 2], data = [-200, 100, 0, 300, 9, 9, 9, 7]\<rparr>"

definition example_fs2 :: fs where
  "example_fs2 =
     \<lparr>dirs = {[], [''data''], [''data'', ''case_00002''], [''frames'']},
      niftis = [example_mask_path \<mapsto> example_mask2,
                [''data'', ''case_00002'', ''imaging.nii.gz''] \<mapsto> example_image2],
      rasters = Map.empty\<rparr>"


text \<open>One possible behaviour of the cast on \<open>nan\<close> and the infinities.\<close>

definition nonfinite_zero :: "f64 \<Rightarrow> 8 word" where
  "nonfinite_zero x = 0"

section \<open>Frame file names\<close>

lemma mkdir_exist_ok_files:
  "mkdir_exist_ok p s = Inr s' \<Longrightarrow> niftis s' = niftis s \<and> rasters s' = rasters s"
  by (auto simp: mkdir_exist_ok_def split: if_splits)

lemma undec_snoc: "undec (cs @ [c]) = 10 * undec cs + (of_char c - 48)"
  by (simp add: undec_def)

lemma of_char_digit: "d < 10 \<Longrightarrow> of_char (digit_char d) - 48 = d"
  by (simp add: digit_char_def)

lemma undec_dec: "undec (dec n) = n"
proof (induction n rule: dec.induct)
  case (1 n)
  show ?case
  proof (cases "n < 10")
    case True
    then show ?thesis by (subst dec.simps) (simp add: undec_def of_char_digit)
  next
    case False
    with 1 show ?thesis
      by (subst dec.simps) (simp add: undec_snoc of_char_digit)
  qed
qed

lemma undec_zeros: "undec (replicate k (CHR ''0'') @ cs) = undec cs"
  by (induction k) (simp_all add: undec_def)

lemma undec_fmt04d: "undec (fmt04d i) = i"
  by (simp add: fmt04d_def undec_zeros undec_dec)

lemma fmt04d_inj: "fmt04d i = fmt04d j \<longleftrightarrow> i = j"
  by (metis undec_fmt04d)

lemma new_image_path_inj: "new_image_path d n i = new_image_path d n j \<longleftrightarrow> i = j"
  by (simp add: new_image_path_def pjoin_def fmt04d_inj)

lemma new_mask_path_inj: "new_mask_path d n i = new_mask_path d n j \<longleftrightarrow> i = j"
  by (simp add: new_mask_path_def pjoin_def fmt04d_inj)

lemma jpg_neq_png: "xs @ ''.jpg'' \<noteq> ys @ ''.png''"
proof
  assume h: "xs @ ''.jpg'' = ys @ ''.png''"
  then have "length (xs @ ''.jpg'') = length (ys @ ''.png'')" by simp
  then have "length xs = length ys" by simp
  with h show False by simp
qed

lemma image_path_neq_mask_path: "new_image_path d n i \<noteq> new_mask_path d' n' j"
proof
  assume "new_image_path d n i = new_mask_path d' n' j"
  then have "(n @ ''_'' @ fmt04d i) @ ''.jpg'' = (n' @ ''_'' @ fmt04d j) @ ''.png''"
    by (simp add: new_image_path_def new_mask_path_def pjoin_def)
  then show False using jpg_neq_png by blast
qed

section \<open>The slice loop\<close>

lemma rescale_frame_ok:
  "data f \<noteq> [] \<Longrightarrow> \<exists>g. rescale_frame rnd nf f = Inr g"
  by (cases "data f") (simp_all add: rescale_frame_def amin_def amax_def)

lemma rescale_frame_error:
  "rescale_frame rnd nf f = Inl e \<Longrightarrow> data f = []"
  by (cases "data f") (simp_all add: rescale_frame_def amin_def amax_def)

lemma frame_loop_files:
  "dirs (snd (frame_loop rnd nf idir mdir name i fr s)) = dirs s \<and>
   niftis (snd (frame_loop rnd nf idir mdir name i fr s)) = niftis s"
proof (induction fr arbitrary: i s)
  case Nil
  show ?case by simp
next
  case (Cons a fr)
  obtain m f where a: "a = (m, f)" by (cases a)
  show ?case
    by (cases "rescale_frame rnd nf f") (simp_all add: a Cons.IH imwrite_def)
qed

lemma frame_loop_other:
  assumes "\<forall>k<length fr. p \<noteq> new_image_path idir name (i + k) \<and> p \<noteq> new_mask_path mdir name (i + k)"
  shows "rasters (snd (frame_loop rnd nf idir mdir name i fr s)) p = rasters s p"
  using assms
proof (induction fr arbitrary: i s)
  case Nil
  show ?case by simp
next
  case (Cons a fr)
  obtain m f where a: "a = (m, f)" by (cases a)
  have here: "p \<noteq> new_image_path idir name i" "p \<noteq> new_mask_path mdir name i"
    using Cons.prems by force+
  have rest: "\<forall>k<length fr. p \<noteq> new_image_path idir name (Suc i + k) \<and> p \<noteq> new_mask_path mdir name (Suc i + k)"
  proof (intro allI impI)
    fix k assume "k < length fr"
    then have "Suc k < length (a # fr)" by simp
    with Cons.prems have "p \<noteq> new_image_path idir name (i + Suc k) \<and> p \<noteq> new_mask_path mdir name (i + Suc k)"
      by blast
    then show "p \<noteq> new_image_path idir name (Suc i + k) \<and> p \<noteq> new_mask_path mdir name (Suc i + k)"
      by simp
  qed
  show ?case
  proof (cases "rescale_frame rnd nf f")
    case (Inl e)
    then show ?thesis by (simp add: a)
  next
    case (Inr g)
    then show ?thesis
      using here by (simp add: a Cons.IH [OF rest] imwrite_def)
  qed
qed

lemma frame_loop_completes:
  "fst (frame_loop rnd nf idir mdir name i fr s) = Inr () \<longleftrightarrow> (\<forall>k<length fr. data (snd (fr ! k)) \<noteq> [])"
proof (induction fr arbitrary: i s)
  case Nil
  show ?case by simp
next
  case (Cons a fr)
  obtain m f where a: "a = (m, f)" by (cases a)
  show ?case
  proof (cases "rescale_frame rnd nf f")
    case (Inl e)
    then have "data f = []" by (rule rescale_frame_error)
    then have "\<not> (\<forall>k<length (a # fr). data (snd ((a # fr) ! k)) \<noteq> [])"
      using a by auto
    then show ?thesis using Inl by (simp add: a)
  next
    case (Inr g)
    then have ne: "data f \<noteq> []"
      by (auto simp: rescale_frame_def amin_def split: list.splits)
    have "(\<forall>k<length (a # fr). data (snd ((a # fr) ! k)) \<noteq> []) \<longleftrightarrow> (\<forall>k<length fr. data (snd (fr ! k)) \<noteq> [])"
      using ne a by (auto simp: nth_Cons split: nat.splits)
    then show ?thesis using Inr by (simp add: a Cons.IH)
  qed
qed

lemma frame_loop_image:
  assumes "fst (frame_loop rnd nf idir mdir name i fr s) = Inr ()" "k < length fr"
  shows "\<exists>g. rescale_frame rnd nf (snd (fr ! k)) = Inr g \<and>
             rasters (snd (frame_loop rnd nf idir mdir name i fr s)) (new_image_path idir name (i + k)) = Some (U8 g)"
  using assms
proof (induction fr arbitrary: i s k)
  case Nil
  then show ?case by simp
next
  case (Cons a fr)
  obtain m f where a: "a = (m, f)" by (cases a)
  from Cons.prems(1) obtain g where g: "rescale_frame rnd nf f = Inr g"
    by (cases "rescale_frame rnd nf f") (simp_all add: a)
  let ?s' = "imwrite (new_mask_path mdir name i) (F64 m) (imwrite (new_image_path idir name i) (U8 g) s)"
  have step: "frame_loop rnd nf idir mdir name i (a # fr) s = frame_loop rnd nf idir mdir name (Suc i) fr ?s'"
    by (simp add: a g)
  show ?case
  proof (cases k)
    case 0
    have "\<forall>j<length fr. new_image_path idir name i \<noteq> new_image_path idir name (Suc i + j) \<and>
            new_image_path idir name i \<noteq> new_mask_path mdir name (Suc i + j)"
      by (simp add: new_image_path_inj image_path_neq_mask_path)
    then have "rasters (snd (frame_loop rnd nf idir mdir name (Suc i) fr ?s')) (new_image_path idir name i)
               = rasters ?s' (new_image_path idir name i)"
      by (rule frame_loop_other)
    also have "\<dots> = Some (U8 g)"
      by (simp add: imwrite_def image_path_neq_mask_path)
    finally show ?thesis using g by (simp add: 0 a)
  next
    case (Suc k')
    with Cons.prems have "k' < length fr" by simp
    moreover have "fst (frame_loop rnd nf idir mdir name (Suc i) fr ?s') = Inr ()"
      using Cons.prems(1) by (simp only: step)
    ultimately show ?thesis
      using Cons.IH [of "Suc i" ?s' k'] by (simp add: step Suc)
  qed
qed

lemma frame_loop_mask:
  assumes "fst (frame_loop rnd nf idir mdir name i fr s) = Inr ()" "k < length fr"
  shows "rasters (snd (frame_loop rnd nf idir mdir name i fr s)) (new_mask_path mdir name (i + k)) = Some (F64 (fst (fr ! k)))"
  using assms
proof (induction fr arbitrary: i s k)
  case Nil
  then show ?case by simp
next
  case (Cons a fr)
  obtain m f where a: "a = (m, f)" by (cases a)
  from Cons.prems(1) obtain g where g: "rescale_frame rnd nf f = Inr g"
    by (cases "rescale_frame rnd nf f") (simp_all add: a)
  let ?s' = "imwrite (new_mask_path mdir name i) (F64 m) (imwrite (new_image_path idir name i) (U8 g) s)"
  have step: "frame_loop rnd nf idir mdir name i (a # fr) s = frame_loop rnd nf idir mdir name (Suc i) fr ?s'"
    by (simp add: a g)
  show ?case
  proof (cases k)
    case 0
    have "\<forall>j<length fr. new_mask_path mdir name i \<noteq> new_image_path idir name (Suc i + j) \<and>
            new_mask_path mdir name i \<noteq> new_mask_path mdir name (Suc i + j)"
      using image_path_neq_mask_path [of idir name _ mdir name i]
      by (simp add: new_mask_path_inj) metis
    then have "rasters (snd (frame_loop rnd nf idir mdir name (Suc i) fr ?s')) (new_mask_path mdir name i)
               = rasters ?s' (new_mask_path mdir name i)"
      by (rule frame_loop_other)
    also have "\<dots> = Some (F64 m)"
      by (simp add: imwrite_def)
    finally show ?thesis using g by (simp add: 0 a)
  next
    case (Suc k')
    with Cons.prems have "k' < length fr" by simp
    moreover have "fst (frame_loop rnd nf idir mdir name (Suc i) fr ?s') = Inr ()"
      using Cons.prems(1) by (simp only: step)
    ultimately show ?thesis
      using Cons.IH [of "Suc i" ?s' k'] by (simp add: step Suc)
  qed
qed

section \<open>What a completed conversion has done\<close>

lemma shape_prepare_mask: "shape (prepare_mask mb a) = shape a"
  by (simp add: prepare_mask_def binarize_def)

lemma shape_prepare_image: "shape (prepare_image wl a) = shape a"
  by (simp add: prepare_image_def apply_window_def split: option.splits prod.splits)

lemma nib_load_Inr: "nib_load s p = Inr v \<longleftrightarrow> niftis s p = Some v"
  by (simp add: nib_load_def split: option.splits)

lemma frames_of_Inr: "frames_of a = Inr fr \<longleftrightarrow> (\<exists>d rest. shape a = d # rest \<and> fr = map (subarray a) [0..<d])"
  by (auto simp: frames_of_def split: list.splits)

lemma save_kits19_frames_completes:
  assumes "fst (save_kits19_frames rnd nf mask_path root_dir wl mb s0) = Inr ()"
  shows "\<exists>image_path mask0 image0 s4 d rest.
    with_name mask_path ''imaging.nii.gz'' = Inr image_path \<and>
    niftis s0 mask_path = Some mask0 \<and> niftis s0 image_path = Some image0 \<and>
    shape mask0 = shape image0 \<and> shape image0 = d # rest \<and>
    rasters s4 = rasters s0 \<and> niftis s4 = niftis s0 \<and>
    save_kits19_frames rnd nf mask_path root_dir wl mb s0 =
      frame_loop rnd nf (image_dir root_dir mask_path) (mask_dir root_dir mask_path)
        (parent_name mask_path) 0
        (zip (map (subarray (prepare_mask mb mask0)) [0..<d])
             (map (subarray (prepare_image wl image0)) [0..<d])) s4"
proof -
  note d = save_kits19_frames_def
  from assms obtain s1 where s1: "mkdir_exist_ok root_dir s0 = Inr s1"
    by (cases "mkdir_exist_ok root_dir s0") (simp_all add: d)
  from assms s1 obtain image_path where ip: "with_name mask_path ''imaging.nii.gz'' = Inr image_path"
    by (cases "with_name mask_path ''imaging.nii.gz''") (simp_all add: d)
  from assms s1 ip have ex: "path_exists s1 mask_path" "path_exists s1 image_path"
    by (auto simp: d split: if_splits)
  from assms s1 ip ex obtain mask0 where m0: "nib_load s1 mask_path = Inr mask0"
    by (cases "nib_load s1 mask_path") (simp_all add: d)
  from assms s1 ip ex m0 obtain image0 where i0: "nib_load s1 image_path = Inr image0"
    by (cases "nib_load s1 image_path") (simp_all add: d)
  from assms s1 ip ex m0 i0 have sh: "shape mask0 = shape image0"
    by (auto simp: d split: if_splits)
  let ?idir = "image_dir root_dir mask_path" and ?mdir = "mask_dir root_dir mask_path"
  from assms s1 ip ex m0 i0 sh obtain s2 where s2: "mkdir_exist_ok (butlast ?idir) s1 = Inr s2"
    by (cases "mkdir_exist_ok (butlast ?idir) s1") (simp_all add: d Let_def)
  from assms s1 ip ex m0 i0 sh s2 obtain s3 where s3: "mkdir_exist_ok ?idir s2 = Inr s3"
    by (cases "mkdir_exist_ok ?idir s2") (simp_all add: d Let_def)
  from assms s1 ip ex m0 i0 sh s2 s3 obtain s4 where s4: "mkdir_exist_ok ?mdir s3 = Inr s4"
    by (cases "mkdir_exist_ok ?mdir s3") (simp_all add: d Let_def)
  from assms s1 ip ex m0 i0 sh s2 s3 s4 obtain mfs where mfs: "frames_of (prepare_mask mb mask0) = Inr mfs"
    by (cases "frames_of (prepare_mask mb mask0)") (simp_all add: d Let_def)
  from assms s1 ip ex m0 i0 sh s2 s3 s4 mfs obtain ifs where ifs: "frames_of (prepare_image wl image0) = Inr ifs"
    by (cases "frames_of (prepare_image wl image0)") (simp_all add: d Let_def)
  from ifs obtain dd rest where shp: "shape image0 = dd # rest"
    and ifs': "ifs = map (subarray (prepare_image wl image0)) [0..<dd]"
    by (auto simp: frames_of_Inr shape_prepare_image)
  from mfs sh shp have mfs': "mfs = map (subarray (prepare_mask mb mask0)) [0..<dd]"
    by (auto simp: frames_of_Inr shape_prepare_mask)
  have files: "rasters s4 = rasters s0" "niftis s4 = niftis s0" "niftis s1 = niftis s0"
    using mkdir_exist_ok_files [OF s1] mkdir_exist_ok_files [OF s2]
      mkdir_exist_ok_files [OF s3] mkdir_exist_ok_files [OF s4] by simp_all
  have run: "save_kits19_frames rnd nf mask_path root_dir wl mb s0 =
      frame_loop rnd nf ?idir ?mdir (parent_name mask_path) 0 (zip mfs ifs) s4"
    using s1 ip ex m0 i0 sh s2 s3 s4 mfs ifs by (simp add: d Let_def)
  from m0 i0 files have "niftis s0 mask_path = Some mask0" "niftis s0 image_path = Some image0"
    by (simp_all add: nib_load_Inr)
  with ip sh shp files run mfs' ifs' show ?thesis by blast
qed

lemma save_kits19_frames_written:
  assumes fin: "fst (save_kits19_frames rnd nf mask_path root_dir wl mb s0) = Inr ()"
    and m0: "niftis s0 mask_path = Some mask0"
    and i0: "niftis s0 (butlast mask_path @ [''imaging.nii.gz'']) = Some image0"
    and i: "i < hd (shape image0)"
  shows "\<exists>g. rescale_frame rnd nf (subarray (prepare_image wl image0) i) = Inr g \<and>
             rasters (snd (save_kits19_frames rnd nf mask_path root_dir wl mb s0))
               (new_image_path (image_dir root_dir mask_path) (parent_name mask_path) i) = Some (U8 g)"
    and "rasters (snd (save_kits19_frames rnd nf mask_path root_dir wl mb s0))
               (new_mask_path (mask_dir root_dir mask_path) (parent_name mask_path) i)
           = Some (F64 (subarray (prepare_mask mb mask0) i))"
proof -
  from save_kits19_frames_completes [OF fin] obtain image_path mask0' image0' s4 d rest where
    ip: "with_name mask_path ''imaging.nii.gz'' = Inr image_path"
    and m0': "niftis s0 mask_path = Some mask0'" and i0': "niftis s0 image_path = Some image0'"
    and shp: "shape image0' = d # rest"
    and run: "save_kits19_frames rnd nf mask_path root_dir wl mb s0 =
      frame_loop rnd nf (image_dir root_dir mask_path) (mask_dir root_dir mask_path)
        (parent_name mask_path) 0
        (zip (map (subarray (prepare_mask mb mask0')) [0..<d])
             (map (subarray (prepare_image wl image0')) [0..<d])) s4"
    by blast
  from ip have "image_path = butlast mask_path @ [''imaging.nii.gz'']"
    by (simp add: with_name_def split: if_splits)
  with m0 i0 m0' i0' have eq: "mask0' = mask0" "image0' = image0" by simp_all
  let ?fr = "zip (map (subarray (prepare_mask mb mask0)) [0..<d])
                 (map (subarray (prepare_image wl image0)) [0..<d])"
  from i shp eq have k: "i < length ?fr" by simp
  from fin run eq have fin': "fst (frame_loop rnd nf (image_dir root_dir mask_path)
     (mask_dir root_dir mask_path) (parent_name mask_path) 0 ?fr s4) = Inr ()" by simp
  from k have nth: "?fr ! i = (subarray (prepare_mask mb mask0) i, subarray (prepare_image wl image0) i)"
    by simp
  show "\<exists>g. rescale_frame rnd nf (subarray (prepare_image wl image0) i) = Inr g \<and>
             rasters (snd (save_kits19_frames rnd nf mask_path root_dir wl mb s0))
               (new_image_path (image_dir root_dir mask_path) (parent_name mask_path) i) = Some (U8 g)"
    using frame_loop_image [OF fin' k] nth run eq by simp
  show "rasters (snd (save_kits19_frames rnd nf mask_path root_dir wl mb s0))
               (new_mask_path (mask_dir root_dir mask_path) (parent_name mask_path) i)
           = Some (F64 (subarray (prepare_mask mb mask0) i))"
    using frame_loop_mask [OF fin' k] nth run eq by simp
qed

lemma save_kits19_frames_other:
  assumes fin: "fst (save_kits19_frames rnd nf mask_path root_dir wl mb s0) = Inr ()"
    and i0: "niftis s0 (butlast mask_path @ [''imaging.nii.gz'']) = Some image0"
    and p: "\<forall>i<hd (shape image0).
              p \<noteq> new_image_path (image_dir root_dir mask_path) (parent_name mask_path) i \<and>
              p \<noteq> new_mask_path (mask_dir root_dir mask_path) (parent_name mask_path) i"
  shows "rasters (snd (save_kits19_frames rnd nf mask_path root_dir wl mb s0)) p = rasters s0 p"
proof -
  from save_kits19_frames_completes [OF fin] obtain image_path mask0' image0' s4 d rest where
    ip: "with_name mask_path ''imaging.nii.gz'' = Inr image_path"
    and i0': "niftis s0 image_path = Some image0'"
    and shp: "shape image0' = d # rest"
    and s4: "rasters s4 = rasters s0"
    and run: "save_kits19_frames rnd nf mask_path root_dir wl mb s0 =
      frame_loop rnd nf (image_dir root_dir mask_path) (mask_dir root_dir mask_path)
        (parent_name mask_path) 0
        (zip (map (subarray (prepare_mask mb mask0')) [0..<d])
             (map (subarray (prepare_image wl image0')) [0..<d])) s4"
    by blast
  from ip have "image_path = butlast mask_path @ [''imaging.nii.gz'']"
    by (simp add: with_name_def split: if_splits)
  with i0 i0' have eq: "image0' = image0" by simp
  let ?fr = "zip (map (subarray (prepare_mask mb mask0')) [0..<d])
                 (map (subarray (prepare_image wl image0')) [0..<d])"
  have "\<forall>k<length ?fr.
          p \<noteq> new_image_path (image_dir root_dir mask_path) (parent_name mask_path) (0 + k) \<and>
          p \<noteq> new_mask_path (mask_dir root_dir mask_path) (parent_name mask_path) (0 + k)"
    using p shp eq by simp
  from frame_loop_other [OF this] show ?thesis
    by (simp add: run s4)
qed

section \<open>Slices, reductions and the cast\<close>

lemma fold_min_Min: "fold min xs (x::rat) = Min (set (x # xs))"
  by (rule Min.set_eq_fold [symmetric])

lemma fold_max_Max: "fold max xs (x::rat) = Max (set (x # xs))"
  by (rule Max.set_eq_fold [symmetric])

lemma rescale_frame_Inr:
  assumes "rescale_frame rnd nf f = Inr g"
  shows "data f \<noteq> []"
    and "g = \<lparr>shape = shape f,
              data = map (rescale_pixel rnd nf (Min (set (data f))) (Max (set (data f)))) (data f)\<rparr>"
proof -
  from assms show ne: "data f \<noteq> []"
    by (auto simp: rescale_frame_def amin_def split: list.splits)
  then obtain x xs where d: "data f = x # xs" by (cases "data f") auto
  have "amin f = Inr (Min (set (data f)))" "amax f = Inr (Max (set (data f)))"
    unfolding amin_def amax_def d by (simp_all only: list.case fold_min_Min fold_max_Max)
  with assms show "g = \<lparr>shape = shape f,
              data = map (rescale_pixel rnd nf (Min (set (data f))) (Max (set (data f)))) (data f)\<rparr>"
    by (simp add: rescale_frame_def)
qed

lemma subarray_binarize:
  "subarray (binarize a) i =
     \<lparr>shape = tl (shape a), data = map (\<lambda>v. if v > 0 then 1 else v) (data (subarray a i))\<rparr>"
  by (simp add: subarray_def binarize_def take_map drop_map)

lemma save_kits19_frames_volumes:
  assumes "fst (save_kits19_frames rnd nf mask_path root_dir wl mb s0) = Inr ()"
  shows "\<exists>mask0 image0. niftis s0 mask_path = Some mask0 \<and>
           niftis s0 (butlast mask_path @ [''imaging.nii.gz'']) = Some image0 \<and>
           shape mask0 = shape image0 \<and> shape image0 \<noteq> []"
proof -
  from save_kits19_frames_completes [OF assms] obtain image_path mask0 image0 d rest where
    ip: "with_name mask_path ''imaging.nii.gz'' = Inr image_path"
    and v: "niftis s0 mask_path = Some mask0" "niftis s0 image_path = Some image0"
      "shape mask0 = shape image0" "shape image0 = d # rest"
    by blast
  from ip have "image_path = butlast mask_path @ [''imaging.nii.gz'']"
    by (simp add: with_name_def split: if_splits)
  with v show ?thesis by simp
qed

lemma set_subarray: "set (data (subarray a i)) \<subseteq> set (data a)"
proof -
  have "set (data (subarray a i)) \<subseteq> set (drop (i * prod_list (tl (shape a))) (data a))"
    by (simp add: subarray_def set_take_subset)
  also have "\<dots> \<subseteq> set (data a)" by (rule set_drop_subset)
  finally show ?thesis .
qed

lemma rescale_pixel_no_wrap:
  assumes mono: "\<And>x y. x \<le> y \<Longrightarrow> rnd x \<le> rnd y"
    and exact: "rnd 0 = 0" "rnd 1 = 1" "rnd 255 = 255"
    and v: "m \<le> v" "v \<le> M" and den: "rnd (M - m) \<noteq> 0"
  shows "\<exists>q. fmul255 rnd (fdiv rnd (rnd (v - m)) (rnd (M - m))) = Finite q \<and>
             0 \<le> q \<and> q \<le> 255 \<and> uint (rescale_pixel rnd nonfinite m M v) = \<lfloor>q\<rfloor>"
proof -
  let ?a = "rnd (v - m)" and ?d = "rnd (M - m)"
  have a0: "0 \<le> ?a" using mono [of 0 "v - m"] v exact by simp
  have ad: "?a \<le> ?d" using mono [of "v - m" "M - m"] v by simp
  with a0 den have d0: "0 < ?d" by simp
  have r0: "0 \<le> ?a / ?d" using a0 d0 by simp
  have r1: "?a / ?d \<le> 1" using ad d0 by simp
  let ?r = "rnd (?a / ?d)"
  have rr: "0 \<le> ?r" "?r \<le> 1" using mono [OF r0] mono [OF r1] exact by simp_all
  let ?q = "rnd (?r * 255)"
  have q0: "0 \<le> ?q" using mono [of 0 "?r * 255"] rr exact by simp
  have q1: "?q \<le> 255" using mono [of "?r * 255" 255] rr exact by simp
  have fl: "0 \<le> \<lfloor>?q\<rfloor>" "\<lfloor>?q\<rfloor> \<le> 255" using q0 q1 by (simp_all add: floor_le_iff)
  have eq: "fmul255 rnd (fdiv rnd ?a ?d) = Finite ?q"
    using den by (simp add: fdiv_def fmul255_def)
  have "uint (word_of_int \<lfloor>?q\<rfloor> :: 8 word) = \<lfloor>?q\<rfloor>"
    using fl by (simp add: uint_word_of_int take_bit_eq_mod)
  then have "uint (rescale_pixel rnd nonfinite m M v) = \<lfloor>?q\<rfloor>"
    using q0 by (simp add: rescale_pixel_def eq astype_uint8_def trunc_def)
  with eq q0 q1 show ?thesis by blast
qed

section \<open>The example cases run to completion\<close>

lemma example_completes:
  "fst (save_kits19_frames id nonfinite_zero example_mask_path [''frames''] (Some (-125, 225)) True example_fs) = Inr ()"
  by code_simp

lemma example2_completes:
  "fst (save_kits19_frames id nonfinite_zero example_mask_path [''frames''] (Some (-125, 225)) True example_fs2) = Inr ()"
  by code_simp

lemma example_volumes:
  "niftis example_fs example_mask_path = Some example_mask"
  "niftis example_fs (butlast example_mask_path @ [''imaging.nii.gz'']) = Some example_image"
  by (simp_all add: example_fs_def example_mask_path_def)

lemma example2_volumes:
  "niftis example_fs2 example_mask_path = Some example_mask2"
  "niftis example_fs2 (butlast example_mask_path @ [''imaging.nii.gz'']) = Some example_image2"
  by (simp_all add: example_fs2_def example_mask_path_def)


section \<open>The mask frames\<close>

text \<open>
  The mask frame written for index \<open>i\<close> is slice \<open>i\<close> of the mask volume with the
  optional binarization applied and nothing else: the window, the rescaling and the rounding
  do not occur in it. On a volume of non-negative labels the binarized values are 0 and 1.
\<close>

lemma mask_frame_is_prepared_slice:
  assumes "fst (save_kits19_frames rnd nonfinite mask_path root_dir window_level make_binary s0) = Inr ()"
    and "niftis s0 mask_path = Some mask_data"
    and "niftis s0 (butlast mask_path @ [''imaging.nii.gz'']) = Some image_data"
    and "i < hd (shape image_data)"
  shows "rasters (snd (save_kits19_frames rnd nonfinite mask_path root_dir window_level make_binary s0))
           (new_mask_path (mask_dir root_dir mask_path) (parent_name mask_path) i)
         = Some (F64 \<lparr>shape = tl (shape mask_data),
                      data = map (\<lambda>v. if make_binary \<and> v > 0 then 1 else v)
                                 (data (subarray mask_data i))\<rparr>) \<and>
         (make_binary \<and> (\<forall>v \<in> set (data mask_data). 0 \<le> v) \<longrightarrow>
            (\<forall>v \<in> set (data (subarray mask_data i)).
               (if make_binary \<and> v > 0 then 1 else v) = 0 \<or> (if make_binary \<and> v > 0 then 1 else v) = 1))"
proof -
  have sub: "subarray (prepare_mask make_binary mask_data) i =
      \<lparr>shape = tl (shape mask_data),
       data = map (\<lambda>v. if make_binary \<and> v > 0 then 1 else v) (data (subarray mask_data i))\<rparr>"
  proof (cases make_binary)
    case True
    then show ?thesis by (simp add: prepare_mask_def subarray_binarize)
  next
    case False
    then show ?thesis by (simp add: prepare_mask_def subarray_def)
  qed
  have written: "rasters (snd (save_kits19_frames rnd nonfinite mask_path root_dir window_level make_binary s0))
           (new_mask_path (mask_dir root_dir mask_path) (parent_name mask_path) i)
         = Some (F64 (subarray (prepare_mask make_binary mask_data) i))"
    by (rule save_kits19_frames_written(2) [OF assms])
  have binary: "make_binary \<and> (\<forall>v \<in> set (data mask_data). 0 \<le> v) \<longrightarrow>
            (\<forall>v \<in> set (data (subarray mask_data i)).
               (if make_binary \<and> v > 0 then 1 else v) = 0 \<or> (if make_binary \<and> v > 0 then 1 else v) = 1)"
  proof (intro impI ballI)
    fix v assume h: "make_binary \<and> (\<forall>v \<in> set (data mask_data). 0 \<le> v)"
      and v: "v \<in> set (data (subarray mask_data i))"
    from set_subarray v have "v \<in> set (data mask_data)" by (rule subsetD)
    with h have nonneg: "0 \<le> v" by blast
    from h have mb: make_binary by blast
    show "(if make_binary \<and> v > 0 then 1 else v) = 0 \<or> (if make_binary \<and> v > 0 then 1 else v) = 1"
    proof (cases "0 < v")
      case True
      with mb show ?thesis by simp
    next
      case False
      with nonneg have "v = 0" by simp
      then show ?thesis by simp
    qed
  qed
  from written sub binary show ?thesis by simp
qed

lemma mask_frame_is_prepared_slice_example:
  "fst (save_kits19_frames id nonfinite_zero example_mask_path [''frames''] (Some (-125, 225)) True example_fs) = Inr () \<and>
   1 < hd (shape example_image) \<and> data (subarray example_mask 1) = [0, 0, 2, 1] \<and>
   rasters (snd (save_kits19_frames id nonfinite_zero example_mask_path [''frames''] (Some (-125, 225)) True example_fs))
     (new_mask_path (mask_dir [''frames''] example_mask_path) (parent_name example_mask_path) 1)
   = Some (F64 \<lparr>shape = [2, 2], data = [0, 0, 1, 1]\<rparr>)"
proof -
  have i: "1 < hd (shape example_image)" by (simp add: example_image_def)
  have sl: "data (subarray example_mask 1) = [0, 0, 2, 1]"
    by (simp add: subarray_def example_mask_def)
  have sh: "tl (shape example_mask) = [2, 2]" by (simp add: example_mask_def)
  have bin: "map (\<lambda>v::rat. if True \<and> v > 0 then 1 else v) [0, 0, 2, 1] = [0, 0, 1, 1]" by simp
  from mask_frame_is_prepared_slice [OF example_completes example_volumes i]
  have "rasters (snd (save_kits19_frames id nonfinite_zero example_mask_path [''frames''] (Some (-125, 225)) True example_fs))
     (new_mask_path (mask_dir [''frames''] example_mask_path) (parent_name example_mask_path) 1)
   = Some (F64 \<lparr>shape = tl (shape example_mask),
                data = map (\<lambda>v. if True \<and> v > 0 then 1 else v) (data (subarray example_mask 1))\<rparr>)"
    by (rule conjunct1)
  then have "rasters (snd (save_kits19_frames id nonfinite_zero example_mask_path [''frames''] (Some (-125, 225)) True example_fs))
     (new_mask_path (mask_dir [''frames''] example_mask_path) (parent_name example_mask_path) 1)
   = Some (F64 \<lparr>shape = [2, 2], data = [0, 0, 1, 1]\<rparr>)"
    unfolding sl sh bin .
  with example_completes i sl show ?thesis by (intro conjI)
qed

text \<open>
  With \<open>make_binary\<close> set, a position that held a non-negative label holds 1 for a
  positive label and 0 for zero, in the stored volume and in the frame that is written.
\<close>

lemma binarize_nonnegative_labels:
  assumes "fst (save_kits19_frames rnd nonfinite mask_path root_dir window_level True s0) = Inr ()"
    and "niftis s0 mask_path = Some mask_data"
    and "niftis s0 (butlast mask_path @ [''imaging.nii.gz'']) = Some image_data"
    and "i < hd (shape image_data)"
    and "k < length (data (subarray mask_data i))"
    and "0 \<le> data (subarray mask_data i) ! k"
  shows "\<exists>mask_frame.
           subarray (prepare_mask True mask_data) i = mask_frame \<and>
           rasters (snd (save_kits19_frames rnd nonfinite mask_path root_dir window_level True s0))
             (new_mask_path (mask_dir root_dir mask_path) (parent_name mask_path) i)
           = Some (F64 mask_frame) \<and>
           length (data mask_frame) = length (data (subarray mask_data i)) \<and>
           data mask_frame ! k = (if data (subarray mask_data i) ! k > 0 then 1 else 0)"
proof -
  have written: "rasters (snd (save_kits19_frames rnd nonfinite mask_path root_dir window_level True s0))
           (new_mask_path (mask_dir root_dir mask_path) (parent_name mask_path) i)
         = Some (F64 (subarray (prepare_mask True mask_data) i))"
    by (rule save_kits19_frames_written(2) [OF assms(1-4)])
  have sub: "data (subarray (prepare_mask True mask_data) i)
               = map (\<lambda>v. if v > 0 then 1 else v) (data (subarray mask_data i))"
    by (simp add: prepare_mask_def subarray_binarize)
  have "data (subarray (prepare_mask True mask_data) i) ! k
          = (if data (subarray mask_data i) ! k > 0 then 1 else 0)"
    using assms(5,6) by (simp add: sub)
  with written sub show ?thesis by simp
qed

lemma binarize_nonnegative_labels_example:
  "fst (save_kits19_frames id nonfinite_zero example_mask_path [''frames''] (Some (-125, 225)) True example_fs) = Inr () \<and>
   data (subarray example_mask 1) ! 2 = 2 \<and>
   (\<exists>mask_frame.
      rasters (snd (save_kits19_frames id nonfinite_zero example_mask_path [''frames''] (Some (-125, 225)) True example_fs))
        (new_mask_path (mask_dir [''frames''] example_mask_path) (parent_name example_mask_path) 1)
      = Some (F64 mask_frame) \<and> data mask_frame ! 2 = 1)"
proof -
  have i: "1 < hd (shape example_image)" by (simp add: example_image_def)
  have sl: "data (subarray example_mask (Suc 0)) = [0, 0, 2, 1]"
    by (simp add: subarray_def example_mask_def)
  have k: "2 < length (data (subarray example_mask 1))" "0 \<le> data (subarray example_mask 1) ! 2"
    "data (subarray example_mask 1) ! 2 = 2"
    by (simp_all add: sl)
  from binarize_nonnegative_labels [OF example_completes example_volumes i k(1,2)]
  show ?thesis
    using example_completes k(3) by auto
qed

section \<open>Properties of the conversion\<close>

text \<open>
  C1. When the mask volume and the image volume have different shapes, the function raises
  the shape assertion, and it does so before any frame is written: the state in which the
  error is reported differs from the initial one only by the root directory, and holds
  exactly the raster files that were there before the call.
\<close>

theorem shape_mismatch_raises_before_write:
  assumes "mkdir_exist_ok root_dir s0 = Inr s1"
    and "mask_path \<noteq> []"
    and "niftis s0 mask_path = Some mask_data"
    and "niftis s0 (butlast mask_path @ [''imaging.nii.gz'']) = Some image_data"
    and "shape mask_data \<noteq> shape image_data"
  shows "save_kits19_frames rnd nonfinite mask_path root_dir window_level make_binary s0
           = (Inl (AssertionError ShapeMismatch), s1) \<and>
         rasters s1 = rasters s0"
proof -
  from mkdir_exist_ok_files [OF assms(1)] have f: "niftis s1 = niftis s0" "rasters s1 = rasters s0"
    by simp_all
  have "path_exists s1 mask_path" "path_exists s1 (butlast mask_path @ [''imaging.nii.gz''])"
    using assms(3,4) f by (simp_all add: path_exists_def)
  moreover have "nib_load s1 mask_path = Inr mask_data"
    "nib_load s1 (butlast mask_path @ [''imaging.nii.gz'']) = Inr image_data"
    using assms(3,4) f by (simp_all add: nib_load_Inr)
  ultimately show ?thesis
    using assms(1,2,5) f by (simp add: save_kits19_frames_def with_name_def)
qed

theorem shape_mismatch_raises_before_write_witness:
  "save_kits19_frames (\<lambda>x. x) (\<lambda>x. 0) example_mask_path [''frames''] None True mismatch_fs
     = (Inl (AssertionError ShapeMismatch), mismatch_fs\<lparr>dirs := insert [''frames''] (dirs mismatch_fs)\<rparr>) \<and>
   rasters (mismatch_fs\<lparr>dirs := insert [''frames''] (dirs mismatch_fs)\<rparr>) = rasters mismatch_fs"
proof -
  have 1: "mkdir_exist_ok [''frames''] mismatch_fs = Inr (mismatch_fs\<lparr>dirs := insert [''frames''] (dirs mismatch_fs)\<rparr>)"
    by (simp add: mkdir_exist_ok_def mismatch_fs_def path_exists_def example_mask_path_def)
  have 2: "example_mask_path \<noteq> []" by (simp add: example_mask_path_def)
  have 3: "niftis mismatch_fs example_mask_path = Some example_mask"
    by (simp add: mismatch_fs_def example_mask_path_def)
  have 4: "niftis mismatch_fs (butlast example_mask_path @ [''imaging.nii.gz'']) = Some \<lparr>shape = [1, 2, 2], data = [1, 2, 3, 4]\<rparr>"
    by (simp add: mismatch_fs_def example_mask_path_def)
  have 5: "shape example_mask \<noteq> shape \<lparr>shape = [1, 2, 2], data = [1, 2, 3, 4::rat]\<rparr>"
    by (simp add: example_mask_def)
  from shape_mismatch_raises_before_write [OF 1 2 3 4 5] show ?thesis .
qed


text \<open>
  C3. For each index \<open>i\<close> of the first axis, the frame written to the \<open>.jpg\<close> of that
  index is obtained from slice \<open>i\<close> of the (windowed) image volume alone: with \<open>m\<close> and
  \<open>M\<close> the minimum and maximum of that slice, every pixel \<open>v\<close> becomes
  \<open>(v - m) / (M - m) * 255\<close>, computed in floating point, and is cast to \<open>uint8\<close>.
\<close>

theorem frame_is_minmax_rescale:
  assumes "fst (save_kits19_frames rnd nonfinite mask_path root_dir window_level make_binary s0) = Inr ()"
    and "niftis s0 (butlast mask_path @ [''imaging.nii.gz'']) = Some image_data"
    and "i < hd (shape image_data)"
  shows "let image_frame = subarray (prepare_image window_level image_data) i;
             m = Min (set (data image_frame));
             M = Max (set (data image_frame))
         in data image_frame \<noteq> [] \<and>
            rasters (snd (save_kits19_frames rnd nonfinite mask_path root_dir window_level make_binary s0))
              (new_image_path (image_dir root_dir mask_path) (parent_name mask_path) i)
            = Some (U8 \<lparr>shape = shape image_frame,
                         data = map (\<lambda>v. astype_uint8 nonfinite
                                             (fmul255 rnd (fdiv rnd (rnd (v - m)) (rnd (M - m)))))
                                    (data image_frame)\<rparr>)"
proof -
  from save_kits19_frames_volumes [OF assms(1)] obtain mask_data where
    m0: "niftis s0 mask_path = Some mask_data" by blast
  from save_kits19_frames_written(1) [OF assms(1) m0 assms(2,3)] obtain g where
    g: "rescale_frame rnd nonfinite (subarray (prepare_image window_level image_data) i) = Inr g"
    and w: "rasters (snd (save_kits19_frames rnd nonfinite mask_path root_dir window_level make_binary s0))
              (new_image_path (image_dir root_dir mask_path) (parent_name mask_path) i) = Some (U8 g)"
    by blast
  from rescale_frame_Inr [OF g] w show ?thesis
    by (simp add: Let_def rescale_pixel_def)
qed

theorem frame_is_minmax_rescale_witness:
  "fst (save_kits19_frames id nonfinite_zero example_mask_path [''frames''] (Some (-125, 225)) True example_fs) = Inr () \<and>
   niftis example_fs (butlast example_mask_path @ [''imaging.nii.gz'']) = Some example_image \<and>
   0 < hd (shape example_image) \<and>
   rasters (snd (save_kits19_frames id nonfinite_zero example_mask_path [''frames''] (Some (-125, 225)) True example_fs))
     (new_image_path (image_dir [''frames''] example_mask_path) (parent_name example_mask_path) 0)
   = Some (U8 \<lparr>shape = [2, 2], data = [0, 163, 91, 255]\<rparr>)"
proof -
  have i: "0 < hd (shape example_image)" by (simp add: example_image_def)
  have sl: "subarray (prepare_image (Some (-125, 225)) example_image) 0 = \<lparr>shape = [2, 2], data = [-125, 100, 0, 225]\<rparr>"
    by (simp add: subarray_def prepare_image_def apply_window_def example_image_def)
  have px: "map (\<lambda>v. astype_uint8 nonfinite_zero (fmul255 id (fdiv id (id (v - (-125))) (id (225 - (-125))))))
              [-125, 100, 0, 225] = [0, 163, 91, 255]"
    by code_simp
  from frame_is_minmax_rescale [OF example_completes example_volumes(2) i]
  show ?thesis
    using example_completes example_volumes(2) i px by (simp add: Let_def sl)
qed

text \<open>
  C4. Every pixel of every image frame that is written lies in the interval from 0 to 255:
  the frame is an array of \<open>uint8\<close>, of the size of the slice.
\<close>

theorem written_pixels_in_range:
  assumes "fst (save_kits19_frames rnd nonfinite mask_path root_dir window_level make_binary s0) = Inr ()"
    and "niftis s0 (butlast mask_path @ [''imaging.nii.gz'']) = Some image_data"
    and "i < hd (shape image_data)"
  shows "\<exists>frame8.
           rasters (snd (save_kits19_frames rnd nonfinite mask_path root_dir window_level make_binary s0))
             (new_image_path (image_dir root_dir mask_path) (parent_name mask_path) i)
           = Some (U8 frame8) \<and>
           length (data frame8) = length (data (subarray (prepare_image window_level image_data) i)) \<and>
           (\<forall>p \<in> set (data frame8). 0 \<le> uint p \<and> uint p \<le> 255)"
proof -
  from save_kits19_frames_volumes [OF assms(1)] obtain mask_data where
    m0: "niftis s0 mask_path = Some mask_data" by blast
  from save_kits19_frames_written(1) [OF assms(1) m0 assms(2,3)] obtain g where
    g: "rescale_frame rnd nonfinite (subarray (prepare_image window_level image_data) i) = Inr g"
    and w: "rasters (snd (save_kits19_frames rnd nonfinite mask_path root_dir window_level make_binary s0))
              (new_image_path (image_dir root_dir mask_path) (parent_name mask_path) i) = Some (U8 g)"
    by blast
  have len: "length (data g) = length (data (subarray (prepare_image window_level image_data) i))"
    using rescale_frame_Inr(2) [OF g] by simp
  have "\<forall>p \<in> set (data g). 0 \<le> uint p \<and> uint p \<le> 255"
  proof
    fix p :: "8 word"
    have "uint p < 2 ^ LENGTH(8)" by (rule uint_lt2p)
    then show "0 \<le> uint p \<and> uint p \<le> 255" by simp
  qed
  with w len show ?thesis by blast
qed

theorem written_pixels_in_range_witness:
  "fst (save_kits19_frames id nonfinite_zero example_mask_path [''frames''] (Some (-125, 225)) True example_fs) = Inr () \<and>
   niftis example_fs (butlast example_mask_path @ [''imaging.nii.gz'']) = Some example_image \<and>
   1 < hd (shape example_image) \<and>
   (\<exists>frame8.
      rasters (snd (save_kits19_frames id nonfinite_zero example_mask_path [''frames''] (Some (-125, 225)) True example_fs))
        (new_image_path (image_dir [''frames''] example_mask_path) (parent_name example_mask_path) 1)
      = Some (U8 frame8) \<and>
      length (data frame8) = length (data (subarray (prepare_image (Some (-125, 225)) example_image) 1)) \<and>
      (\<forall>p \<in> set (data frame8). 0 \<le> uint p \<and> uint p \<le> 255))"
proof -
  have i: "1 < hd (shape example_image)" by (simp add: example_image_def)
  from written_pixels_in_range [OF example_completes example_volumes(2) i]
  show ?thesis
    using example_completes example_volumes(2) i by blast
qed

text \<open>
  C5. With a window \<open>(low, high)\<close> such that \<open>low \<le> high\<close>, every intensity of the
  image volume is replaced by its clamp to the window: \<open>low\<close> below the window,
  \<open>high\<close> above it, and the value itself inside. Shape and size are unchanged.
\<close>

theorem window_is_clamp:
  assumes "low \<le> high" and "k < length (data image_data)"
  shows "data (prepare_image (Some (low, high)) image_data) ! k =
           (if data image_data ! k < low then low
            else if data image_data ! k > high then high
            else data image_data ! k) \<and>
         data (prepare_image (Some (low, high)) image_data) ! k = max low (min high (data image_data ! k)) \<and>
         length (data (prepare_image (Some (low, high)) image_data)) = length (data image_data) \<and>
         shape (prepare_image (Some (low, high)) image_data) = shape image_data"
  using assms by (simp add: prepare_image_def apply_window_def)

theorem window_is_clamp_witness:
  "(-125::rat) \<le> 225 \<and> (0::nat) < length (data example_image) \<and>
   data (prepare_image (Some (-125, 225)) example_image) ! 0 = -125 \<and>
   data example_image ! 0 = -200"
  using window_is_clamp [of "-125" 225 0 example_image]
  by (simp add: example_image_def)

text \<open>
  C6. When the conversion completes, there is one image frame and one mask frame for every
  index \<open>i\<close> from 0 to \<open>shape[0] - 1\<close>: the \<open>n = shape[0]\<close> paths of the image frames
  are pairwise different, so are those of the mask frames, no path is in both families,
  each of them holds a frame afterwards, and no other raster file has been touched.
\<close>

theorem one_frame_per_slice:
  assumes "fst (save_kits19_frames rnd nonfinite mask_path root_dir window_level make_binary s0) = Inr ()"
    and "niftis s0 mask_path = Some mask_data"
    and "niftis s0 (butlast mask_path @ [''imaging.nii.gz'']) = Some image_data"
  shows "let n = hd (shape image_data);
             s' = snd (save_kits19_frames rnd nonfinite mask_path root_dir window_level make_binary s0);
             jpg = new_image_path (image_dir root_dir mask_path) (parent_name mask_path);
             png = new_mask_path (mask_dir root_dir mask_path) (parent_name mask_path)
         in shape image_data \<noteq> [] \<and> hd (shape mask_data) = n \<and>
            (\<forall>i<n. (\<exists>frame8. rasters s' (jpg i) = Some (U8 frame8)) \<and>
                    (\<exists>mask_frame. rasters s' (png i) = Some (F64 mask_frame))) \<and>
            card (jpg ` {..<n}) = n \<and> card (png ` {..<n}) = n \<and>
            jpg ` {..<n} \<inter> png ` {..<n} = {} \<and>
            (\<forall>p. p \<notin> jpg ` {..<n} \<union> png ` {..<n} \<longrightarrow> rasters s' p = rasters s0 p)"
proof -
  let ?n = "hd (shape image_data)"
  let ?s' = "snd (save_kits19_frames rnd nonfinite mask_path root_dir window_level make_binary s0)"
  let ?jpg = "new_image_path (image_dir root_dir mask_path) (parent_name mask_path)"
  let ?png = "new_mask_path (mask_dir root_dir mask_path) (parent_name mask_path)"
  from save_kits19_frames_volumes [OF assms(1)] assms(2,3)
  have shp: "shape image_data \<noteq> []" "hd (shape mask_data) = ?n" by auto
  have each: "\<forall>i<?n. (\<exists>frame8. rasters ?s' (?jpg i) = Some (U8 frame8)) \<and>
                    (\<exists>mask_frame. rasters ?s' (?png i) = Some (F64 mask_frame))"
    using save_kits19_frames_written [OF assms] by blast
  have "inj_on ?jpg {..<?n}" "inj_on ?png {..<?n}"
    by (simp_all add: inj_on_def new_image_path_inj new_mask_path_inj)
  then have cards: "card (?jpg ` {..<?n}) = ?n" "card (?png ` {..<?n}) = ?n"
    by (simp_all add: card_image)
  have disj: "?jpg ` {..<?n} \<inter> ?png ` {..<?n} = {}"
    using image_path_neq_mask_path by fastforce
  have other: "\<forall>p. p \<notin> ?jpg ` {..<?n} \<union> ?png ` {..<?n} \<longrightarrow> rasters ?s' p = rasters s0 p"
  proof (intro allI impI)
    fix p assume "p \<notin> ?jpg ` {..<?n} \<union> ?png ` {..<?n}"
    then have "\<forall>i<?n. p \<noteq> ?jpg i \<and> p \<noteq> ?png i" by auto
    from save_kits19_frames_other [OF assms(1,3) this] show "rasters ?s' p = rasters s0 p" .
  qed
  from shp each cards disj other show ?thesis
    unfolding Let_def by blast
qed

theorem one_frame_per_slice_witness:
  "fst (save_kits19_frames id nonfinite_zero example_mask_path [''frames''] (Some (-125, 225)) True example_fs) = Inr () \<and>
   hd (shape example_image) = 2 \<and>
   (let n = hd (shape example_image);
        s' = snd (save_kits19_frames id nonfinite_zero example_mask_path [''frames''] (Some (-125, 225)) True example_fs);
        jpg = new_image_path (image_dir [''frames''] example_mask_path) (parent_name example_mask_path);
        png = new_mask_path (mask_dir [''frames''] example_mask_path) (parent_name example_mask_path)
    in shape example_image \<noteq> [] \<and> hd (shape example_mask) = n \<and>
       (\<forall>i<n. (\<exists>frame8. rasters s' (jpg i) = Some (U8 frame8)) \<and>
               (\<exists>mask_frame. rasters s' (png i) = Some (F64 mask_frame))) \<and>
       card (jpg ` {..<n}) = n \<and> card (png ` {..<n}) = n \<and>
       jpg ` {..<n} \<inter> png ` {..<n} = {} \<and>
       (\<forall>p. p \<notin> jpg ` {..<n} \<union> png ` {..<n} \<longrightarrow> rasters s' p = rasters example_fs p))"
proof -
  have "hd (shape example_image) = 2" by (simp add: example_image_def)
  with one_frame_per_slice [OF example_completes example_volumes] example_completes
  show ?thesis by blast
qed

text \<open>
  C7. On a slice whose pixels are all equal the source divides by zero: minimum and maximum
  coincide, the denominator \<open>max - min\<close> is 0, every quotient is \<open>0 / 0 = nan\<close>, and
  nothing guards the division: no exception is raised and the frame that results consists
  of the cast of \<open>nan\<close> at every pixel.
\<close>

theorem constant_slice_divides_by_zero:
  assumes "data image_frame \<noteq> []" and "\<forall>v \<in> set (data image_frame). v = c" and "rnd 0 = 0"
  shows "amin image_frame = Inr c \<and> amax image_frame = Inr c \<and> rnd (c - c) = 0 \<and>
         (\<forall>v \<in> set (data image_frame). fdiv rnd (rnd (v - c)) (rnd (c - c)) = NaN) \<and>
         rescale_frame rnd nonfinite image_frame =
           Inr \<lparr>shape = shape image_frame, data = map (\<lambda>v. nonfinite NaN) (data image_frame)\<rparr>"
proof -
  from assms(1) obtain x xs where d: "data image_frame = x # xs" by (cases "data image_frame") auto
  with assms(2) have x: "x = c" and xs: "\<forall>v \<in> set xs. v = c" by simp_all
  have fmin: "fold min xs c = c" using xs by (induction xs) simp_all
  have fmax: "fold max xs c = c" using xs by (induction xs) simp_all
  have mn: "amin image_frame = Inr c" and mx: "amax image_frame = Inr c"
    by (simp_all add: amin_def amax_def d x fmin fmax)
  have px: "\<forall>v \<in> set (data image_frame). rescale_pixel rnd nonfinite c c v = nonfinite NaN"
    using assms(2,3) by (simp add: rescale_pixel_def fdiv_def fmul255_def astype_uint8_def)
  have "map (rescale_pixel rnd nonfinite c c) (data image_frame) = map (\<lambda>v. nonfinite NaN) (data image_frame)"
    using px by simp
  then show ?thesis
    using mn mx assms(2,3) by (simp add: rescale_frame_def fdiv_def)
qed

theorem constant_slice_divides_by_zero_witness:
  "data \<lparr>shape = [1, 2], data = [5, 5::rat]\<rparr> \<noteq> [] \<and>
   amin \<lparr>shape = [1, 2], data = [5, 5::rat]\<rparr> = Inr 5 \<and> amax \<lparr>shape = [1, 2], data = [5, 5::rat]\<rparr> = Inr 5 \<and>
   rescale_frame (\<lambda>x. x) (\<lambda>x. 0) \<lparr>shape = [1, 2], data = [5, 5]\<rparr> = Inr \<lparr>shape = [1, 2], data = [0, 0]\<rparr>"
  using constant_slice_divides_by_zero [of "\<lparr>shape = [1, 2], data = [5, 5::rat]\<rparr>" 5 "\<lambda>x. x" "\<lambda>x. 0"]
  by simp

text \<open>
  C8. The frames written for index \<open>i\<close> depend on slice \<open>i\<close> only: two completed runs
  with the same arguments, on volumes whose slices \<open>i\<close> agree after windowing and
  binarization, write the same image frame and the same mask frame for \<open>i\<close>, whatever
  the other slices and the initial file systems hold.
\<close>

theorem slices_independent:
  assumes "fst (save_kits19_frames rnd nonfinite mask_path root_dir window_level make_binary s0) = Inr ()"
    and "fst (save_kits19_frames rnd nonfinite mask_path root_dir window_level make_binary t0) = Inr ()"
    and "niftis s0 mask_path = Some mask_data"
    and "niftis s0 (butlast mask_path @ [''imaging.nii.gz'']) = Some image_data"
    and "niftis t0 mask_path = Some mask_data'"
    and "niftis t0 (butlast mask_path @ [''imaging.nii.gz'']) = Some image_data'"
    and "i < hd (shape image_data)" and "i < hd (shape image_data')"
    and "subarray (prepare_image window_level image_data) i
           = subarray (prepare_image window_level image_data') i"
    and "subarray (prepare_mask make_binary mask_data) i
           = subarray (prepare_mask make_binary mask_data') i"
  shows "rasters (snd (save_kits19_frames rnd nonfinite mask_path root_dir window_level make_binary s0))
           (new_image_path (image_dir root_dir mask_path) (parent_name mask_path) i)
         = rasters (snd (save_kits19_frames rnd nonfinite mask_path root_dir window_level make_binary t0))
           (new_image_path (image_dir root_dir mask_path) (parent_name mask_path) i) \<and>
         rasters (snd (save_kits19_frames rnd nonfinite mask_path root_dir window_level make_binary s0))
           (new_mask_path (mask_dir root_dir mask_path) (parent_name mask_path) i)
         = rasters (snd (save_kits19_frames rnd nonfinite mask_path root_dir window_level make_binary t0))
           (new_mask_path (mask_dir root_dir mask_path) (parent_name mask_path) i)"
proof -
  note a = save_kits19_frames_written [OF assms(1,3,4,7)]
  note b = save_kits19_frames_written [OF assms(2,5,6,8)]
  from a(1) b(1) assms(9) have "rasters (snd (save_kits19_frames rnd nonfinite mask_path root_dir window_level make_binary s0))
           (new_image_path (image_dir root_dir mask_path) (parent_name mask_path) i)
         = rasters (snd (save_kits19_frames rnd nonfinite mask_path root_dir window_level make_binary t0))
           (new_image_path (image_dir root_dir mask_path) (parent_name mask_path) i)"
    by auto
  moreover from a(2) b(2) assms(10) have "rasters (snd (save_kits19_frames rnd nonfinite mask_path root_dir window_level make_binary s0))
           (new_mask_path (mask_dir root_dir mask_path) (parent_name mask_path) i)
         = rasters (snd (save_kits19_frames rnd nonfinite mask_path root_dir window_level make_binary t0))
           (new_mask_path (mask_dir root_dir mask_path) (parent_name mask_path) i)"
    by simp
  ultimately show ?thesis by blast
qed

theorem slices_independent_witness:
  "fst (save_kits19_frames id nonfinite_zero example_mask_path [''frames''] (Some (-125, 225)) True example_fs) = Inr () \<and>
   fst (save_kits19_frames id nonfinite_zero example_mask_path [''frames''] (Some (-125, 225)) True example_fs2) = Inr () \<and>
   subarray (prepare_image (Some (-125, 225)) example_image) 0
     = subarray (prepare_image (Some (-125, 225)) example_image2) 0 \<and>
   subarray (prepare_mask True example_mask) 0 = subarray (prepare_mask True example_mask2) 0 \<and>
   subarray example_image 1 \<noteq> subarray example_image2 1 \<and>
   rasters (snd (save_kits19_frames id nonfinite_zero example_mask_path [''frames''] (Some (-125, 225)) True example_fs))
     (new_image_path (image_dir [''frames''] example_mask_path) (parent_name example_mask_path) 0)
   = rasters (snd (save_kits19_frames id nonfinite_zero example_mask_path [''frames''] (Some (-125, 225)) True example_fs2))
     (new_image_path (image_dir [''frames''] example_mask_path) (parent_name example_mask_path) 0) \<and>
   rasters (snd (save_kits19_frames id nonfinite_zero example_mask_path [''frames''] (Some (-125, 225)) True example_fs))
     (new_mask_path (mask_dir [''frames''] example_mask_path) (parent_name example_mask_path) 0)
   = rasters (snd (save_kits19_frames id nonfinite_zero example_mask_path [''frames''] (Some (-125, 225)) True example_fs2))
     (new_mask_path (mask_dir [''frames''] example_mask_path) (parent_name example_mask_path) 0)"
proof -
  have i: "0 < hd (shape example_image)" "0 < hd (shape example_image2)"
    by (simp_all add: example_image_def example_image2_def)
  have im: "subarray (prepare_image (Some (-125, 225)) example_image) 0
     = subarray (prepare_image (Some (-125, 225)) example_image2) 0"
    by (simp add: subarray_def prepare_image_def apply_window_def example_image_def example_image2_def)
  have mk: "subarray (prepare_mask True example_mask) 0 = subarray (prepare_mask True example_mask2) 0"
    by (simp add: subarray_def prepare_mask_def binarize_def example_mask_def example_mask2_def)
  have other: "subarray example_image 1 \<noteq> subarray example_image2 1"
    by (simp add: subarray_def example_image_def example_image2_def)
  from slices_independent [OF example_completes example2_completes example_volumes example2_volumes i im mk]
  show ?thesis
    using example_completes example2_completes im mk other by blast
qed


section \<open>Properties of the translation demo\<close>

text \<open>
  C10. For an input that is empty or made of whitespace only, \<open>translate\<close> raises the
  assertion on the stripped sentence, and no call to the tokenizers or to the inference
  request has been made by then: the call log is returned as it was.
\<close>

theorem translate_blank_raises:
  assumes "\<forall>c \<in> set sentence. py_isspace c"
  shows "py_strip sentence = [] \<and>
         translate env sentence calls = (Inl (AssertionError EmptySentence), calls)"
proof -
  from assms have blank: "dropWhile py_isspace sentence = []"
    by (induction sentence) simp_all
  have "py_strip sentence = []"
    unfolding py_strip_def blank by simp
  then show ?thesis by (simp add: translate_def)
qed

theorem translate_blank_raises_witness:
  "py_strip (ustr_of '' '') = [] \<and>
   translate \<lparr>max_tokens = 6, src_encode = (\<lambda>s. map int s), src_token_to_id = (\<lambda>s. 0),
      infer = (\<lambda>t. t), tgt_decode = (\<lambda>t. []), lower = (\<lambda>s. s)\<rparr> (ustr_of '' '') [] = (Inl (AssertionError EmptySentence), [])"
proof -
  have "\<forall>c \<in> set (ustr_of '' ''). py_isspace c"
    by (simp add: ustr_of_def py_isspace_def)
  from translate_blank_raises [OF this] show ?thesis by blast
qed

end
